theory Spec2Isabelle
  imports Complex_Main "HOL-Library.Log_Nat"
begin

section \<open>Python values\<close>

text \<open>
  The screener is dynamically typed: the applicant record is a \<open>dict\<close> whose values are
  \<open>None\<close>, booleans, integers, floats or strings, and the evaluator tests them for
  truthiness, compares them with integer literals and with string literals.  A finite
  float is carried as the real number it denotes, \<open>PFloat x\<close>; \<open>PInf True\<close> is \<open>inf\<close> and
  \<open>PInf False\<close> is \<open>-inf\<close> (NaN, which nothing here produces, is left out).  The
  arithmetic that produces floats is in the next section.
\<close>

datatype pyval = PNone | PBool bool | PInt int | PFloat real | PInf bool | PStr string

datatype py_error = KeyError string | TypeError | ZeroDivisionError | OverflowError

type_synonym pydict = "string \<rightharpoonup> pyval"

type_synonym verdict = "string \<times> string list"

text \<open>Sequencing of computations that may raise.\<close>

definition then_do :: "py_error + 'a \<Rightarrow> ('a \<Rightarrow> py_error + 'b) \<Rightarrow> py_error + 'b" where
  "then_do m f = (case m of Inl e \<Rightarrow> Inl e | Inr x \<Rightarrow> f x)"

text \<open>\<open>data[k]\<close>: a missing key raises \<open>KeyError\<close>.\<close>

definition getitem :: "pydict \<Rightarrow> string \<Rightarrow> py_error + pyval" where
  "getitem d k = (case d k of None \<Rightarrow> Inl (KeyError k) | Some v \<Rightarrow> Inr v)"

text \<open>Truth value testing, as \<open>if v:\<close> and \<open>v and ...\<close> do it.\<close>

fun truthy :: "pyval \<Rightarrow> bool" where
  "truthy PNone = False"
| "truthy (PBool b) = b"
| "truthy (PInt i) = (i \<noteq> 0)"
| "truthy (PFloat x) = (x \<noteq> 0)"
| "truthy (PInf positive) = True"
| "truthy (PStr s) = (s \<noteq> [])"

text \<open>The numeric value of a finite number (\<open>bool\<close> is a subclass of \<open>int\<close>).\<close>

fun py_num :: "pyval \<Rightarrow> real option" where
  "py_num PNone = None"
| "py_num (PBool b) = Some (if b then 1 else 0)"
| "py_num (PInt i) = Some (of_int i)"
| "py_num (PFloat x) = Some x"
| "py_num (PInf positive) = None"
| "py_num (PStr s) = None"

text \<open>
  \<open>v > n\<close> for an integer literal \<open>n\<close>: \<open>TypeError\<close> unless \<open>v\<close> is a number; \<open>inf\<close> is
  above every integer and \<open>-inf\<close> below.
\<close>

definition py_gt :: "pyval \<Rightarrow> int \<Rightarrow> py_error + bool" where
  "py_gt v n =
     (case v of
        PInf positive \<Rightarrow> Inr positive
      | _ \<Rightarrow> (case py_num v of None \<Rightarrow> Inl TypeError | Some x \<Rightarrow> Inr (of_int n < x)))"

text \<open>\<open>v == s\<close> for a string literal \<open>s\<close>: never raises, and is false unless \<open>v\<close> is a string.\<close>

fun py_eq_str :: "pyval \<Rightarrow> string \<Rightarrow> bool" where
  "py_eq_str (PStr t) s = (t = s)"
| "py_eq_str v s = False"

section \<open>Floating-point arithmetic\<close>

text \<open>
  Python's \<open>float\<close> is IEEE binary64.  A finite double is a signed integer times a power
  of two, \<open>Double m e\<close> standing for \<open>m * 2 ^ e\<close>: the mantissa has at most 53 bits, the
  exponent is at least \<open>-1074\<close> (below the normal range the spacing stays \<open>2 ^ -1074\<close>),
  and the magnitude is below \<open>2 ^ 1024\<close>.  Every operation of the BMI formula is the exact
  rational operation followed by rounding to the nearest double, ties to the even
  mantissa.  A result that rounds to \<open>2 ^ 1024\<close> or more overflows: the division of two
  integers, the conversion of an integer and \<open>round\<close> then raise \<open>OverflowError\<close>, the
  multiplication of two floats yields an infinity.
\<close>

datatype double = Double int int

datatype pyfloat = Finite double | Infinite bool

definition double_val :: "double \<Rightarrow> real" where
  "double_val x = (case x of Double m e \<Rightarrow>
     if 0 \<le> e then of_int (m * 2 ^ nat e) else of_int m / of_int (2 ^ nat (- e)))"

text \<open>\<open>int.bit_length\<close>: the number of bits of a positive integer.\<close>

function bit_length :: "int \<Rightarrow> nat" where
  "bit_length n = (if n \<le> 0 then 0 else Suc (bit_length (n div 2)))"
  by pat_completeness auto
termination
  by (relation "measure nat") auto

declare bit_length.simps [simp del]

text \<open>The integer nearest to \<open>n / d\<close> for \<open>d > 0\<close>, a tie going to the even one.\<close>

definition round_half_even :: "int \<Rightarrow> int \<Rightarrow> int" where
  "round_half_even n d =
     (let q = n div d; r = n mod d
      in if 2 * r < d then q else if d < 2 * r then q + 1 else if even q then q else q + 1)"

text \<open>The binary exponent of \<open>n / d\<close> for positive \<open>n\<close> and \<open>d\<close>: \<open>2 ^ k \<le> n / d < 2 ^ (k + 1)\<close>.\<close>

definition floor_log2 :: "int \<Rightarrow> int \<Rightarrow> int" where
  "floor_log2 n d =
     (let k = int (bit_length n) - int (bit_length d)
      in if (if 0 \<le> k then d * 2 ^ nat k \<le> n else d \<le> n * 2 ^ nat (- k)) then k else k - 1)"

text \<open>
  The quotient \<open>n / d\<close> of positive \<open>n\<close> and \<open>d\<close> rounded to a mantissa of 53 bits, or to a
  multiple of \<open>2 ^ -1074\<close> when that is coarser.  The magnitude is not limited here.
\<close>

definition nearest_double_pos :: "int \<Rightarrow> int \<Rightarrow> double" where
  "nearest_double_pos n d =
     (let s = max (floor_log2 n d - 52) (- 1074)
      in Double (if 0 \<le> s then round_half_even n (d * 2 ^ nat s)
                 else round_half_even (n * 2 ^ nat (- s)) d) s)"

text \<open>The same for \<open>d > 0\<close> and any \<open>n\<close>.\<close>

definition nearest_double :: "int \<Rightarrow> int \<Rightarrow> double" where
  "nearest_double n d =
     (if n = 0 then Double 0 0
      else if 0 < n then nearest_double_pos n d
      else (case nearest_double_pos (- n) d of Double m e \<Rightarrow> Double (- m) e))"

text \<open>
  A rounded result is out of the range of binary64: its magnitude is \<open>2 ^ 1024\<close> or more,
  that is, the bits of the mantissa end above position 1024.
\<close>

definition overflows :: "double \<Rightarrow> bool" where
  "overflows x = (case x of Double m e \<Rightarrow> m \<noteq> 0 \<and> 1024 < int (bit_length \<bar>m\<bar>) + e)"

text \<open>
  \<open>a / b\<close> on two integers: the correctly rounded quotient; \<open>ZeroDivisionError\<close> for a
  zero divisor, \<open>OverflowError\<close> when the quotient is too large for a float.
\<close>

definition int_truediv :: "int \<Rightarrow> int \<Rightarrow> py_error + double" where
  "int_truediv a b =
     (if b = 0 then Inl ZeroDivisionError
      else (let q = (if 0 < b then nearest_double a b else nearest_double (- a) (- b))
            in if overflows q then Inl OverflowError else Inr q))"

text \<open>
  The conversion of an integer operand of a float operation: \<open>OverflowError\<close> when
  the integer is too large.
\<close>

definition float_of_int :: "int \<Rightarrow> py_error + double" where
  "float_of_int k =
     (let c = nearest_double k 1 in if overflows c then Inl OverflowError else Inr c)"

text \<open>\<open>x * y\<close> on two finite floats: the rounded product, an infinity when it overflows.\<close>

definition float_mul :: "double \<Rightarrow> double \<Rightarrow> pyfloat" where
  "float_mul x y = (case x of Double m e \<Rightarrow> case y of Double m' e' \<Rightarrow>
     (let p = (if 0 \<le> e + e' then nearest_double (m * m' * 2 ^ nat (e + e')) 1
               else nearest_double (m * m') (2 ^ nat (- (e + e'))))
      in if overflows p then Infinite (0 < double_val p) else Finite p))"

text \<open>
  \<open>round(x, 1)\<close>: an infinity is returned as it is; the exact value of a finite double is
  rounded to a whole number of tenths, a tie going to the even one, and the result is the
  double nearest to that decimal (\<open>OverflowError\<close> should it be out of range).
\<close>

definition round_tenths :: "double \<Rightarrow> int" where
  "round_tenths x = (case x of Double m e \<Rightarrow>
     (if 0 \<le> m then
        (if 0 \<le> e then 10 * m * 2 ^ nat e else round_half_even (10 * m) (2 ^ nat (- e)))
      else
        - (if 0 \<le> e then 10 * (- m) * 2 ^ nat e else round_half_even (10 * (- m)) (2 ^ nat (- e)))))"

definition py_round1 :: "pyfloat \<Rightarrow> py_error + pyfloat" where
  "py_round1 x =
     (case x of
        Infinite positive \<Rightarrow> Inr (Infinite positive)
      | Finite d \<Rightarrow>
          (let r = nearest_double (round_tenths d) 10
           in if overflows r then Inl OverflowError else Inr (Finite r)))"

text \<open>A float as a value of the program.\<close>

definition float_value :: "pyfloat \<Rightarrow> pyval" where
  "float_value x = (case x of Finite d \<Rightarrow> PFloat (double_val d) | Infinite positive \<Rightarrow> PInf positive)"

section \<open>The BMI calculator\<close>

text \<open>
  The form hands over the height in feet and the weight as an integer or \<open>None\<close>, and the
  inches as an integer.  \<open>if height_ft and weight_lbs\<close> tests both for truthiness.  In
  \<open>(weight_lbs / (total_inches ** 2)) * 703\<close> the two integers are divided first, then
  \<open>703\<close> is converted and multiplied in.
\<close>

definition truthy_int :: "int option \<Rightarrow> bool" where
  "truthy_int v = (case v of None \<Rightarrow> False | Some n \<Rightarrow> n \<noteq> 0)"

definition calculate_bmi :: "int option \<Rightarrow> int \<Rightarrow> int option \<Rightarrow> py_error + pyval" where
  "calculate_bmi height_ft height_in weight_lbs =
     (if truthy_int height_ft \<and> truthy_int weight_lbs then
        (case (height_ft, weight_lbs) of
           (Some ft, Some lbs) \<Rightarrow>
             (let total_inches = ft * 12 + height_in
              in if 0 < total_inches then
                   then_do (int_truediv lbs (total_inches ^ 2)) (\<lambda>q.
                   then_do (float_of_int 703) (\<lambda>c.
                     let bmi = float_mul q c
                     in then_do (py_round1 bmi) (\<lambda>r. Inr (float_value r))))
                 else Inr PNone)
         | _ \<Rightarrow> Inr PNone)
      else Inr PNone)"

text \<open>
  The call in \<open>main\<close>: the inches, when none are selected, are passed as \<open>0\<close>.
\<close>

definition current_bmi :: "int option \<Rightarrow> int option \<Rightarrow> int option \<Rightarrow> py_error + pyval" where
  "current_bmi height_ft height_in weight =
     calculate_bmi height_ft (case height_in of None \<Rightarrow> 0 | Some i \<Rightarrow> i) weight"

section \<open>The explanation messages\<close>

definition msg_cancer :: string where
  "msg_cancer = ''Active malignancy (cancer) is typically a contraindication. Generally, you must be cancer-free for a specific period (often 2-5 years) before being listed.''"

definition msg_infection :: string where
  "msg_infection = ''Active systemic infections must be fully treated and resolved before transplantation can proceed.''"

definition msg_substance :: string where
  "msg_substance = ''Active substance abuse is a contraindication. Programs typically require a demonstrated period of sobriety/abstinence.''"

definition msg_heart_lung :: string where
  "msg_heart_lung = ''Severe heart or lung disease requires a detailed clearance by a specialist to ensure you are healthy enough for surgery.''"

definition bmi_prefix :: string where
  "bmi_prefix = ''Your calculated BMI is ''"

text \<open>The two f-strings; \<open>shown\<close> is the text that \<open>{bmi}\<close> expands to.\<close>

definition msg_bmi_over_40 :: "string \<Rightarrow> string" where
  "msg_bmi_over_40 shown = bmi_prefix @ shown @ ''. A BMI over 40 may delay listing. The team may work with you on a weight loss plan prior to surgery.''"

definition msg_bmi_over_35 :: "string \<Rightarrow> string" where
  "msg_bmi_over_35 shown = bmi_prefix @ shown @ ''. While eligible, a BMI over 35 carries higher surgical risks.''"

definition msg_age :: string where
  "msg_age = ''While there is no strict age limit, candidates over 75 undergo a more rigorous evaluation to ensure they can tolerate the surgery and medication.''"

definition msg_support :: string where
  "msg_support = ''Post-transplant care requires a dedicated support person. You will need to identify a support system to be listed.''"

definition msg_gfr :: string where
  "msg_gfr = ''Typically, patients are listed for transplant when GFR drops below 20. If your GFR is between 20-30, you can still be evaluated, but waiting time may not accrue yet.''"

section \<open>The eligibility evaluator\<close>

text \<open>
  \<open>determine_eligibility\<close> keeps two local variables, \<open>status\<close> and \<open>messages\<close>, and runs
  eight \<open>if\<close> statements over them.  Each statement is a function from the pair of the two
  variables to the updated pair, or to the exception that the statement raises.
\<close>

text \<open>\<open>status = s; messages.append(m)\<close>\<close>

definition flag :: "string \<Rightarrow> string \<Rightarrow> verdict \<Rightarrow> verdict" where
  "flag s m st = (s, snd st @ [m])"

definition check_cancer :: "pydict \<Rightarrow> verdict \<Rightarrow> py_error + verdict" where
  "check_cancer data st =
     then_do (getitem data ''active_cancer'') (\<lambda>v.
       Inr (if truthy v then flag ''ineligible'' msg_cancer st else st))"

definition check_infection :: "pydict \<Rightarrow> verdict \<Rightarrow> py_error + verdict" where
  "check_infection data st =
     then_do (getitem data ''active_infection'') (\<lambda>v.
       Inr (if truthy v then flag ''ineligible'' msg_infection st else st))"

definition check_substance :: "pydict \<Rightarrow> verdict \<Rightarrow> py_error + verdict" where
  "check_substance data st =
     then_do (getitem data ''substance_abuse'') (\<lambda>v.
       Inr (if truthy v then flag ''ineligible'' msg_substance st else st))"

definition check_heart_lung :: "pydict \<Rightarrow> verdict \<Rightarrow> py_error + verdict" where
  "check_heart_lung data st =
     then_do (getitem data ''heart_lung_disease'') (\<lambda>v.
       Inr (if truthy v then flag ''conditional'' msg_heart_lung st else st))"

text \<open>
  The BMI statement.  \<open>fmt\<close> is Python's built-in conversion of the value to text inside
  the f-string; it is a parameter of the model.
\<close>

definition check_bmi :: "(pyval \<Rightarrow> string) \<Rightarrow> pyval \<Rightarrow> verdict \<Rightarrow> py_error + verdict" where
  "check_bmi fmt bmi st =
     (if truthy bmi then
        then_do (py_gt bmi 40) (\<lambda>over40.
          if over40 then Inr (flag ''conditional'' (msg_bmi_over_40 (fmt bmi)) st)
          else then_do (py_gt bmi 35) (\<lambda>over35.
            Inr (if over35 then flag ''conditional'' (msg_bmi_over_35 (fmt bmi)) st else st)))
      else Inr st)"

definition check_age :: "pydict \<Rightarrow> verdict \<Rightarrow> py_error + verdict" where
  "check_age data st =
     then_do (getitem data ''age'') (\<lambda>a.
       if truthy a then
         then_do (getitem data ''age'') (\<lambda>a'.
         then_do (py_gt a' 75) (\<lambda>over75.
           Inr (if over75 then flag ''conditional'' msg_age st else st)))
       else Inr st)"

definition check_support :: "pydict \<Rightarrow> verdict \<Rightarrow> py_error + verdict" where
  "check_support data st =
     then_do (getitem data ''social_support'') (\<lambda>v.
       Inr (if py_eq_str v ''No / Unsure'' then flag ''conditional'' msg_support st else st))"

definition check_gfr :: "pydict \<Rightarrow> verdict \<Rightarrow> py_error + verdict" where
  "check_gfr data st =
     then_do (getitem data ''on_dialysis'') (\<lambda>d.
       if py_eq_str d ''No'' then
         then_do (getitem data ''gfr'') (\<lambda>g.
           if truthy g then
             then_do (getitem data ''gfr'') (\<lambda>g'.
             then_do (py_gt g' 20) (\<lambda>over20.
               Inr (if over20 then flag ''conditional'' msg_gfr st else st)))
           else Inr st)
       else Inr st)"

definition determine_eligibility :: "(pyval \<Rightarrow> string) \<Rightarrow> pydict \<Rightarrow> pyval \<Rightarrow> py_error + verdict" where
  "determine_eligibility fmt data bmi =
     then_do (check_cancer data (''eligible'', [])) (\<lambda>s1.
     then_do (check_infection data s1) (\<lambda>s2.
     then_do (check_substance data s2) (\<lambda>s3.
       if fst s3 \<noteq> ''ineligible'' then
         then_do (check_heart_lung data s3) (\<lambda>s4.
         then_do (check_bmi fmt bmi s4) (\<lambda>s5.
         then_do (check_age data s5) (\<lambda>s6.
         then_do (check_support data s6) (\<lambda>s7.
         check_gfr data s7))))
       else Inr s3)))"

text \<open>
  The same run, recording the pair of variables before the first statement and after each
  statement that is executed.
\<close>

fun run_checks :: "(verdict \<Rightarrow> py_error + verdict) list \<Rightarrow> verdict \<Rightarrow> py_error + verdict list" where
  "run_checks [] st = Inr [st]"
| "run_checks (c # cs) st =
     then_do (c st) (\<lambda>st'. then_do (run_checks cs st') (\<lambda>tr. Inr (st # tr)))"

definition eligibility_trace :: "(pyval \<Rightarrow> string) \<Rightarrow> pydict \<Rightarrow> pyval \<Rightarrow> py_error + verdict list" where
  "eligibility_trace fmt data bmi =
     then_do (run_checks [check_cancer data, check_infection data, check_substance data]
                (''eligible'', [])) (\<lambda>tr1.
       if fst (last tr1) \<noteq> ''ineligible'' then
         then_do (run_checks [check_heart_lung data, check_bmi fmt bmi, check_age data,
                              check_support data, check_gfr data] (last tr1)) (\<lambda>tr2.
           Inr (tr1 @ tl tr2))
       else Inr tr1)"

text \<open>Severity of a status: eligible, then conditional, then ineligible.\<close>

definition severity :: "string \<Rightarrow> nat" where
  "severity s = (if s = ''eligible'' then 0 else if s = ''conditional'' then 1 else 2)"

subsection \<open>The record that the form builds\<close>

text \<open>
  \<open>main\<close> compiles the answers of the form into the dict it passes on.  The four
  checkboxes are booleans; the answer of the social-support radio button is compared with
  \<open>"Yes"\<close>, so the dict holds a boolean under \<open>social_support\<close>.
\<close>

definition compile_data ::
  "pyval \<Rightarrow> pyval \<Rightarrow> pyval \<Rightarrow> bool \<Rightarrow> bool \<Rightarrow> bool \<Rightarrow> bool \<Rightarrow> pyval \<Rightarrow> pydict" where
  "compile_data age on_dialysis gfr active_cancer active_infection substance_abuse
       heart_lung_disease social_support =
     [''age'' \<mapsto> age,
      ''on_dialysis'' \<mapsto> on_dialysis,
      ''gfr'' \<mapsto> gfr,
      ''active_cancer'' \<mapsto> PBool active_cancer,
      ''active_infection'' \<mapsto> PBool active_infection,
      ''substance_abuse'' \<mapsto> PBool substance_abuse,
      ''heart_lung_disease'' \<mapsto> PBool heart_lung_disease,
      ''social_support'' \<mapsto> PBool (py_eq_str social_support ''Yes'')]"

text \<open>
  The "Check Eligibility" button: the BMI of the form's height and weight, and the verdict
  on the compiled record with that BMI.
\<close>

definition check_eligibility ::
  "(pyval \<Rightarrow> string) \<Rightarrow> pyval \<Rightarrow> pyval \<Rightarrow> pyval \<Rightarrow> int option \<Rightarrow> int option \<Rightarrow> int option \<Rightarrow>
   bool \<Rightarrow> bool \<Rightarrow> bool \<Rightarrow> bool \<Rightarrow> pyval \<Rightarrow> py_error + verdict" where
  "check_eligibility fmt age on_dialysis gfr height_ft height_in weight active_cancer
       active_infection substance_abuse heart_lung_disease social_support =
     then_do (current_bmi height_ft height_in weight) (\<lambda>bmi.
       determine_eligibility fmt
         (compile_data age on_dialysis gfr active_cancer active_infection substance_abuse
            heart_lung_disease social_support) bmi)"

subsection \<open>The rules as the specification words them\<close>

text \<open>An optional number: \<open>None\<close>, an integer or a float.\<close>

fun opt_number :: "pyval \<Rightarrow> bool" where
  "opt_number PNone = True"
| "opt_number (PInt i) = True"
| "opt_number (PFloat x) = True"
| "opt_number v = False"

text \<open>"Present and greater than \<open>n\<close>".\<close>

definition present_gt :: "pyval \<Rightarrow> int \<Rightarrow> bool" where
  "present_gt v n = (case py_num v of None \<Rightarrow> False | Some x \<Rightarrow> of_int n < x)"

text \<open>Rules 1 to 3 in order, each contributing its message when its flag is set.\<close>

definition hard_stop_messages :: "pyval \<Rightarrow> pyval \<Rightarrow> pyval \<Rightarrow> string list" where
  "hard_stop_messages cancer infection substance =
     (if truthy cancer then [msg_cancer] else []) @
     (if truthy infection then [msg_infection] else []) @
     (if truthy substance then [msg_substance] else [])"

text \<open>The BMI pair, rules 5 and 6: the first that applies, and only that one.\<close>

definition bmi_messages :: "(pyval \<Rightarrow> string) \<Rightarrow> pyval \<Rightarrow> string list" where
  "bmi_messages fmt bmi =
     (if present_gt bmi 40 then [msg_bmi_over_40 (fmt bmi)]
      else if present_gt bmi 35 then [msg_bmi_over_35 (fmt bmi)]
      else [])"

text \<open>Rule 9: not on dialysis, GFR present and above 20.\<close>

definition gfr_rule :: "pyval \<Rightarrow> pyval \<Rightarrow> bool" where
  "gfr_rule on_dialysis gfr = (py_eq_str on_dialysis ''No'' \<and> present_gt gfr 20)"

text \<open>
  Rules 4 to 9 in order, as the specification words them: rule 8 applies when
  \<open>social_support\<close> is false.
\<close>

definition spec_conditional_messages ::
  "(pyval \<Rightarrow> string) \<Rightarrow> pyval \<Rightarrow> pyval \<Rightarrow> pyval \<Rightarrow> pyval \<Rightarrow> pyval \<Rightarrow> pyval \<Rightarrow> string list" where
  "spec_conditional_messages fmt heart_lung bmi age support on_dialysis gfr =
     (if truthy heart_lung then [msg_heart_lung] else []) @
     bmi_messages fmt bmi @
     (if present_gt age 75 then [msg_age] else []) @
     (if support = PBool False then [msg_support] else []) @
     (if gfr_rule on_dialysis gfr then [msg_gfr] else [])"

text \<open>One of the rules 4 to 9, as the specification words them, applies.\<close>

definition spec_conditional_rule_applies ::
  "pyval \<Rightarrow> pyval \<Rightarrow> pyval \<Rightarrow> pyval \<Rightarrow> pyval \<Rightarrow> pyval \<Rightarrow> bool" where
  "spec_conditional_rule_applies heart_lung bmi age support on_dialysis gfr =
     (truthy heart_lung \<or> present_gt bmi 40 \<or> present_gt bmi 35 \<or> present_gt age 75 \<or>
      support = PBool False \<or> gfr_rule on_dialysis gfr)"

text \<open>A BMI message is one that starts with the common opening of the two f-strings.\<close>

definition is_bmi_message :: "string \<Rightarrow> bool" where
  "is_bmi_message m = (take (length bmi_prefix) m = bmi_prefix)"

text \<open>The dict holds the eight documented fields, with these values.\<close>

definition applicant ::
  "pydict \<Rightarrow> pyval \<Rightarrow> pyval \<Rightarrow> pyval \<Rightarrow> pyval \<Rightarrow> pyval \<Rightarrow> pyval \<Rightarrow> pyval \<Rightarrow> pyval \<Rightarrow> bool" where
  "applicant data cancer infection substance heart_lung age support on_dialysis gfr =
     (data ''active_cancer'' = Some cancer \<and>
      data ''active_infection'' = Some infection \<and>
      data ''substance_abuse'' = Some substance \<and>
      data ''heart_lung_disease'' = Some heart_lung \<and>
      data ''age'' = Some age \<and>
      data ''social_support'' = Some support \<and>
      data ''on_dialysis'' = Some on_dialysis \<and>
      data ''gfr'' = Some gfr)"

text \<open>One of the three hard stops applies.\<close>

definition hard_stop :: "pyval \<Rightarrow> pyval \<Rightarrow> pyval \<Rightarrow> bool" where
  "hard_stop cancer infection substance = (truthy cancer \<or> truthy infection \<or> truthy substance)"

subsection \<open>The second phase of the code in closed form\<close>

text \<open>
  What the five statements of the second phase append, with the tests that the code
  makes: the support statement compares the field with the text \<open>"No / Unsure"\<close>.  This
  describes the code, not the specification's rule 8.
\<close>

definition phase2_messages ::
  "(pyval \<Rightarrow> string) \<Rightarrow> pyval \<Rightarrow> pyval \<Rightarrow> pyval \<Rightarrow> pyval \<Rightarrow> pyval \<Rightarrow> pyval \<Rightarrow> string list" where
  "phase2_messages fmt heart_lung bmi age support on_dialysis gfr =
     (if truthy heart_lung then [msg_heart_lung] else []) @
     bmi_messages fmt bmi @
     (if present_gt age 75 then [msg_age] else []) @
     (if py_eq_str support ''No / Unsure'' then [msg_support] else []) @
     (if gfr_rule on_dialysis gfr then [msg_gfr] else [])"

subsection \<open>Notions the claims speak of\<close>

text \<open>The status does not move down in severity from \<open>s\<close> to \<open>t\<close>.\<close>

definition upward :: "verdict \<Rightarrow> verdict \<Rightarrow> bool" where
  "upward s t = (severity (fst s) \<le> severity (fst t))"

text \<open>
  One statement: either it leaves both variables as they are, or it appends exactly one
  message and leaves a status other than \<open>eligible\<close>.
\<close>

definition rule_step :: "verdict \<Rightarrow> verdict \<Rightarrow> bool" where
  "rule_step s t = (t = s \<or> (fst t \<noteq> ''eligible'' \<and> length (snd t) = Suc (length (snd s)) \<and> butlast (snd t) = snd s))"

text \<open>The status is one of the three, and it is \<open>eligible\<close> exactly when no message is listed.\<close>

definition consistent :: "verdict \<Rightarrow> bool" where
  "consistent s = ((fst s = ''eligible'' \<or> fst s = ''conditional'' \<or> fst s = ''ineligible'') \<and>
                   (fst s = ''eligible'' \<longleftrightarrow> snd s = []))"

text \<open>
  An applicant for the examples: 80 years old, not on dialysis with a GFR of 25, severe
  heart or lung disease, and the answer "No / Unsure" stored as text under
  \<open>social_support\<close>.
\<close>

definition example_applicant :: pydict where "example_applicant = [''age'' \<mapsto> PInt 80,
          ''on_dialysis'' \<mapsto> PStr ''No'',
          ''gfr'' \<mapsto> PFloat 25,
          ''active_cancer'' \<mapsto> PBool False,
          ''active_infection'' \<mapsto> PBool False,
          ''substance_abuse'' \<mapsto> PBool False,
          ''heart_lung_disease'' \<mapsto> PBool True,
          ''social_support'' \<mapsto> PStr ''No / Unsure'']"

section \<open>Basic facts\<close>

lemma then_do_Inr [simp]: "then_do (Inr x) f = f x"
  by (simp add: then_do_def)

lemma then_do_Inl [simp]: "then_do (Inl e) f = Inl e"
  by (simp add: then_do_def)

lemma getitem_Some [simp]: "d k = Some v \<Longrightarrow> getitem d k = Inr v"
  by (simp add: getitem_def)

lemma getitem_None [simp]: "d k = None \<Longrightarrow> getitem d k = Inl (KeyError k)"
  by (simp add: getitem_def)

lemma fst_flag [simp]: "fst (flag s m st) = s"
  by (simp add: flag_def)

lemma snd_flag [simp]: "snd (flag s m st) = snd st @ [m]"
  by (simp add: flag_def)

lemma py_gt_number: "opt_number v \<Longrightarrow> truthy v \<Longrightarrow> py_gt v n = Inr (present_gt v n)"
  by (cases v) (simp_all add: py_gt_def present_gt_def)

lemma present_gt_truthy: "opt_number v \<Longrightarrow> \<not> truthy v \<Longrightarrow> 0 \<le> n \<Longrightarrow> \<not> present_gt v n"
  by (cases v) (simp_all add: present_gt_def)

subsection \<open>Each statement in closed form\<close>

lemma check_bmi_eq:
  "opt_number bmi \<Longrightarrow>
   check_bmi fmt bmi st =
     Inr (if present_gt bmi 40 then flag ''conditional'' (msg_bmi_over_40 (fmt bmi)) st
          else if present_gt bmi 35 then flag ''conditional'' (msg_bmi_over_35 (fmt bmi)) st
          else st)"
  by (cases bmi) (auto simp: check_bmi_def py_gt_def present_gt_def)

lemma check_age_eq:
  "data ''age'' = Some a \<Longrightarrow> opt_number a \<Longrightarrow>
   check_age data st = Inr (if present_gt a 75 then flag ''conditional'' msg_age st else st)"
  by (cases a) (auto simp: check_age_def py_gt_def present_gt_def)

lemma check_gfr_eq:
  "data ''on_dialysis'' = Some d \<Longrightarrow> data ''gfr'' = Some g \<Longrightarrow> opt_number g \<Longrightarrow>
   check_gfr data st = Inr (if gfr_rule d g then flag ''conditional'' msg_gfr st else st)"
  by (cases g) (auto simp: check_gfr_def py_gt_def present_gt_def gfr_rule_def)

lemma check_gfr_not_no:
  "data ''on_dialysis'' = Some d \<Longrightarrow> \<not> py_eq_str d ''No'' \<Longrightarrow> check_gfr data st = Inr st"
  by (simp add: check_gfr_def)

lemma phase1_eq:
  assumes "data ''active_cancer'' = Some c" "data ''active_infection'' = Some i"
    "data ''substance_abuse'' = Some s"
  shows "then_do (check_cancer data (''eligible'', [])) (\<lambda>s1.
     then_do (check_infection data s1) (\<lambda>s2.
     then_do (check_substance data s2) k)) =
     k (if hard_stop_messages c i s = [] then ''eligible'' else ''ineligible'', hard_stop_messages c i s)"
  using assms
  by (simp add: check_cancer_def check_infection_def check_substance_def hard_stop_messages_def flag_def)

lemma phase2_eq:
  assumes "data ''heart_lung_disease'' = Some h" "data ''age'' = Some a"
    "data ''social_support'' = Some ss" "data ''on_dialysis'' = Some d" "data ''gfr'' = Some g"
    "opt_number a" "opt_number g" "opt_number bmi"
  shows "then_do (check_heart_lung data (''eligible'', [])) (\<lambda>s4.
         then_do (check_bmi fmt bmi s4) (\<lambda>s5.
         then_do (check_age data s5) (\<lambda>s6.
         then_do (check_support data s6) (\<lambda>s7.
         check_gfr data s7)))) =
     Inr (if phase2_messages fmt h bmi a ss d g = [] then ''eligible'' else ''conditional'',
          phase2_messages fmt h bmi a ss d g)"
  using assms
  by (simp add: check_heart_lung_def check_bmi_eq check_age_eq check_support_def check_gfr_eq
       phase2_messages_def bmi_messages_def flag_def)

lemma determine_eligibility_hard:
  assumes "data ''active_cancer'' = Some c" "data ''active_infection'' = Some i"
    "data ''substance_abuse'' = Some s" "hard_stop_messages c i s \<noteq> []"
  shows "determine_eligibility fmt data bmi = Inr (''ineligible'', hard_stop_messages c i s)"
  unfolding determine_eligibility_def using assms(4) by (simp add: phase1_eq [OF assms(1-3)])

lemma determine_eligibility_clear:
  assumes "data ''active_cancer'' = Some c" "data ''active_infection'' = Some i"
    "data ''substance_abuse'' = Some s" "hard_stop_messages c i s = []"
    "data ''heart_lung_disease'' = Some h" "data ''age'' = Some a"
    "data ''social_support'' = Some ss" "data ''on_dialysis'' = Some d" "data ''gfr'' = Some g"
    "opt_number a" "opt_number g" "opt_number bmi"
  shows "determine_eligibility fmt data bmi =
     Inr (if phase2_messages fmt h bmi a ss d g = [] then ''eligible'' else ''conditional'',
          phase2_messages fmt h bmi a ss d g)"
  unfolding determine_eligibility_def using assms(4)
  by (simp add: phase1_eq [OF assms(1-3)] phase2_eq [OF assms(5-12)])

lemma hard_stop_messages_Nil:
  "hard_stop_messages c i s = [] \<longleftrightarrow> \<not> truthy c \<and> \<not> truthy i \<and> \<not> truthy s"
  by (simp add: hard_stop_messages_def)


subsection \<open>The whole evaluator in closed form\<close>

lemma applicantD:
  assumes "applicant data c i s h a ss d g"
  shows "data ''active_cancer'' = Some c" "data ''active_infection'' = Some i"
    "data ''substance_abuse'' = Some s" "data ''heart_lung_disease'' = Some h"
    "data ''age'' = Some a" "data ''social_support'' = Some ss"
    "data ''on_dialysis'' = Some d" "data ''gfr'' = Some g"
  using assms by (simp_all add: applicant_def)

lemma determine_eligibility_eq:
  assumes "applicant data c i s h a ss d g" "opt_number a" "opt_number g" "opt_number bmi"
  shows "determine_eligibility fmt data bmi =
     Inr (if hard_stop c i s then (''ineligible'', hard_stop_messages c i s)
          else (if phase2_messages fmt h bmi a ss d g = [] then ''eligible'' else ''conditional'',
                phase2_messages fmt h bmi a ss d g))"
proof (cases "hard_stop c i s")
  case True
  then have "hard_stop_messages c i s \<noteq> []"
    by (simp add: hard_stop_messages_Nil hard_stop_def)
  with True show ?thesis
    using determine_eligibility_hard [OF applicantD(1-3) [OF assms(1)]] by simp
next
  case False
  then have "hard_stop_messages c i s = []"
    by (simp add: hard_stop_messages_Nil hard_stop_def)
  with False show ?thesis
    using determine_eligibility_clear [OF applicantD(1-3) [OF assms(1)] _ applicantD(4-8) [OF assms(1)] assms(2-4)]
    by simp
qed

lemma is_bmi_message_simps:
  "is_bmi_message (msg_bmi_over_40 t)" "is_bmi_message (msg_bmi_over_35 t)"
  "\<not> is_bmi_message msg_cancer" "\<not> is_bmi_message msg_infection"
  "\<not> is_bmi_message msg_substance" "\<not> is_bmi_message msg_heart_lung"
  "\<not> is_bmi_message msg_age" "\<not> is_bmi_message msg_support" "\<not> is_bmi_message msg_gfr"
  by (simp_all add: is_bmi_message_def msg_bmi_over_40_def msg_bmi_over_35_def bmi_prefix_def
        msg_cancer_def msg_infection_def msg_substance_def msg_heart_lung_def msg_age_def
        msg_support_def msg_gfr_def)

lemma compile_data_applicant:
  "applicant (compile_data a d g c i s h ss) (PBool c) (PBool i) (PBool s) (PBool h) a
     (PBool (py_eq_str ss ''Yes'')) d g"
  by (simp add: applicant_def compile_data_def)

subsection \<open>The recorded run\<close>

lemma then_do_assoc: "then_do (then_do m f) g = then_do m (\<lambda>x. then_do (f x) g)"
  by (simp add: then_do_def split: sum.splits)

lemma then_do_Inr_right: "then_do m Inr = m"
  by (cases m) simp_all

lemma then_do_cong_Inr: "(\<And>x. m = Inr x \<Longrightarrow> f x = g x) \<Longrightarrow> then_do m f = then_do m g"
  by (cases m) simp_all

lemma run_checks_shape: "run_checks cs st = Inr tr \<Longrightarrow> tr \<noteq> [] \<and> hd tr = st"
  by (cases cs) (auto simp: then_do_def split: sum.splits)

lemma run_checks_Nil_last: "then_do (run_checks [] st) (\<lambda>tr. k (last tr)) = k st"
  by simp

lemma run_checks_Cons_last:
  "then_do (run_checks (c # cs) st) (\<lambda>tr. k (last tr)) =
     then_do (c st) (\<lambda>st'. then_do (run_checks cs st') (\<lambda>tr. k (last tr)))"
proof (cases "c st")
  case (Inl e)
  then show ?thesis by simp
next
  case (Inr st')
  show ?thesis
  proof (cases "run_checks cs st'")
    case (Inl e)
    with Inr show ?thesis by simp
  next
    case tr: (Inr tr)
    with run_checks_shape [OF tr] Inr show ?thesis by simp
  qed
qed

lemma determine_eligibility_trace:
  "determine_eligibility fmt data bmi =
     then_do (eligibility_trace fmt data bmi) (\<lambda>tr. Inr (last tr))"
proof -
  let ?P1 = "[check_cancer data, check_infection data, check_substance data]"
  let ?P2 = "[check_heart_lung data, check_bmi fmt bmi, check_age data,
              check_support data, check_gfr data]"
  let ?K = "\<lambda>s3. if fst s3 \<noteq> ''ineligible''
                 then then_do (run_checks ?P2 s3) (\<lambda>tr2. Inr (last tr2)) else Inr s3"
  let ?K' = "\<lambda>s3. if fst s3 \<noteq> ''ineligible''
                 then then_do (check_heart_lung data s3) (\<lambda>s4.
                      then_do (check_bmi fmt bmi s4) (\<lambda>s5.
                      then_do (check_age data s5) (\<lambda>s6.
                      then_do (check_support data s6) (\<lambda>s7.
                      check_gfr data s7))))
                 else Inr s3"
  have p2: "then_do (run_checks ?P2 s) (\<lambda>tr2. Inr (last tr2)) =
              then_do (check_heart_lung data s) (\<lambda>s4.
              then_do (check_bmi fmt bmi s4) (\<lambda>s5.
              then_do (check_age data s5) (\<lambda>s6.
              then_do (check_support data s6) (\<lambda>s7.
              check_gfr data s7))))" for s
    by (simp only: then_do_Inr_right
          run_checks_Cons_last [where k = Inr] run_checks_Nil_last [where k = Inr])
  have "determine_eligibility fmt data bmi =
          then_do (run_checks ?P1 (''eligible'', [])) (\<lambda>tr1. ?K' (last tr1))"
    by (simp only: determine_eligibility_def
          run_checks_Cons_last [where k = ?K'] run_checks_Nil_last [where k = ?K'])
  also have "\<dots> = then_do (run_checks ?P1 (''eligible'', [])) (\<lambda>tr1. ?K (last tr1))"
    by (simp only: p2)
  also have "\<dots> = then_do (eligibility_trace fmt data bmi) (\<lambda>tr. Inr (last tr))"
    unfolding eligibility_trace_def then_do_assoc
  proof (rule then_do_cong_Inr)
    fix tr1
    assume r1: "run_checks ?P1 (''eligible'', []) = Inr tr1"
    have ne: "tr1 \<noteq> []"
      using run_checks_shape [OF r1] by blast
    show "?K (last tr1) =
        then_do (if fst (last tr1) \<noteq> ''ineligible''
                 then then_do (run_checks ?P2 (last tr1)) (\<lambda>tr2. Inr (tr1 @ tl tr2))
                 else Inr tr1) (\<lambda>tr. Inr (last tr))"
    proof (cases "fst (last tr1) \<noteq> ''ineligible''")
      case False
      then show ?thesis by simp
    next
      case True
      have "then_do (run_checks ?P2 (last tr1)) (\<lambda>tr2. Inr (last tr2)) =
            then_do (run_checks ?P2 (last tr1)) (\<lambda>tr2. Inr (last (tr1 @ tl tr2)))"
      proof (rule then_do_cong_Inr)
        fix tr2
        assume "run_checks ?P2 (last tr1) = Inr tr2"
        from run_checks_shape [OF this] ne
        show "Inr (last tr2) = Inr (last (tr1 @ tl tr2))"
          by (cases tr2) auto
      qed
      with True show ?thesis
        by (simp add: then_do_assoc)
    qed
  qed
  finally show ?thesis .
qed

lemma check_cancer_cases:
  "check_cancer data st = Inr st' \<Longrightarrow> st' = st \<or> st' = flag ''ineligible'' msg_cancer st"
  by (auto simp: check_cancer_def then_do_def split: sum.splits if_splits)

lemma check_infection_cases:
  "check_infection data st = Inr st' \<Longrightarrow> st' = st \<or> st' = flag ''ineligible'' msg_infection st"
  by (auto simp: check_infection_def then_do_def split: sum.splits if_splits)

lemma check_substance_cases:
  "check_substance data st = Inr st' \<Longrightarrow> st' = st \<or> st' = flag ''ineligible'' msg_substance st"
  by (auto simp: check_substance_def then_do_def split: sum.splits if_splits)

lemma check_heart_lung_cases:
  "check_heart_lung data st = Inr st' \<Longrightarrow> st' = st \<or> st' = flag ''conditional'' msg_heart_lung st"
  by (auto simp: check_heart_lung_def then_do_def split: sum.splits if_splits)

lemma check_bmi_cases:
  "check_bmi fmt bmi st = Inr st' \<Longrightarrow> st' = st \<or> (\<exists>m. st' = flag ''conditional'' m st)"
  by (auto simp: check_bmi_def then_do_def split: sum.splits if_splits)

lemma check_age_cases:
  "check_age data st = Inr st' \<Longrightarrow> st' = st \<or> st' = flag ''conditional'' msg_age st"
  by (auto simp: check_age_def then_do_def split: sum.splits if_splits)

lemma check_support_cases:
  "check_support data st = Inr st' \<Longrightarrow> st' = st \<or> st' = flag ''conditional'' msg_support st"
  by (auto simp: check_support_def then_do_def split: sum.splits if_splits)

lemma check_gfr_cases:
  "check_gfr data st = Inr st' \<Longrightarrow> st' = st \<or> st' = flag ''conditional'' msg_gfr st"
  by (auto simp: check_gfr_def then_do_def split: sum.splits if_splits)

lemma run_checks_successively:
  assumes "\<And>c s s'. c \<in> set cs \<Longrightarrow> I s \<Longrightarrow> c s = Inr s' \<Longrightarrow> I s' \<and> R s s'"
    and "I st" and "run_checks cs st = Inr tr"
  shows "tr \<noteq> [] \<and> hd tr = st \<and> successively R tr \<and> I (last tr)"
  using assms
proof (induction cs arbitrary: st tr)
  case Nil
  then show ?case by auto
next
  case (Cons c cs)
  from Cons.prems(3) obtain st' tr' where
    c: "c st = Inr st'" and r: "run_checks cs st' = Inr tr'" and tr: "tr = st # tr'"
    by (auto simp: then_do_def split: sum.splits)
  from Cons.prems(1) [of c st st'] Cons.prems(2) c have st': "I st'" "R st st'"
    by simp_all
  have step: "I s' \<and> R s s'" if "c' \<in> set cs" "I s" "c' s = Inr s'" for c' s s'
    using Cons.prems(1) [of c' s s'] that by simp
  have "tr' \<noteq> [] \<and> hd tr' = st' \<and> successively R tr' \<and> I (last tr')"
    by (rule Cons.IH [OF step st'(1) r])
  with st' tr show ?case
    by (auto simp: successively_Cons)
qed

lemma flag_ineligible_step:
  "consistent s \<Longrightarrow> consistent (flag ''ineligible'' m s) \<and> upward s (flag ''ineligible'' m s)
     \<and> rule_step s (flag ''ineligible'' m s)"
  by (auto simp: consistent_def upward_def rule_step_def severity_def flag_def)

lemma flag_conditional_step:
  "consistent s \<Longrightarrow> fst s \<noteq> ''ineligible'' \<Longrightarrow>
   consistent (flag ''conditional'' m s) \<and> upward s (flag ''conditional'' m s)
     \<and> rule_step s (flag ''conditional'' m s)"
  by (auto simp: consistent_def upward_def rule_step_def severity_def flag_def)

lemma same_step: "upward s s \<and> rule_step s s"
  by (simp add: upward_def rule_step_def)

lemma phase1_trace:
  assumes "run_checks [check_cancer data, check_infection data, check_substance data] st = Inr tr"
    and "consistent st"
  shows "tr \<noteq> [] \<and> hd tr = st \<and> successively (\<lambda>s t. upward s t \<and> rule_step s t) tr
     \<and> consistent (last tr)"
proof (rule run_checks_successively [where I = consistent, OF _ assms(2) assms(1)])
  fix c s s'
  assume "c \<in> set [check_cancer data, check_infection data, check_substance data]"
    and "consistent s" and "c s = Inr s'"
  then show "consistent s' \<and> upward s s' \<and> rule_step s s'"
    using flag_ineligible_step [of s] same_step [of s]
    by (auto dest!: check_cancer_cases check_infection_cases check_substance_cases)
qed

lemma phase2_trace:
  assumes "run_checks [check_heart_lung data, check_bmi fmt bmi, check_age data,
                       check_support data, check_gfr data] st = Inr tr"
    and "consistent st" and "fst st \<noteq> ''ineligible''"
  shows "tr \<noteq> [] \<and> hd tr = st \<and> successively (\<lambda>s t. upward s t \<and> rule_step s t) tr
     \<and> consistent (last tr)"
proof -
  have "tr \<noteq> [] \<and> hd tr = st \<and> successively (\<lambda>s t. upward s t \<and> rule_step s t) tr
     \<and> (consistent (last tr) \<and> fst (last tr) \<noteq> ''ineligible'')"
  proof (rule run_checks_successively [where I = "\<lambda>s. consistent s \<and> fst s \<noteq> ''ineligible''", OF _ _ assms(1)])
    fix c s s'
    assume "c \<in> set [check_heart_lung data, check_bmi fmt bmi, check_age data,
                       check_support data, check_gfr data]"
      and "consistent s \<and> fst s \<noteq> ''ineligible''" and "c s = Inr s'"
    then show "(consistent s' \<and> fst s' \<noteq> ''ineligible'') \<and> upward s s' \<and> rule_step s s'"
      using flag_conditional_step [of s] same_step [of s]
      by (auto dest!: check_heart_lung_cases check_bmi_cases check_age_cases
            check_support_cases check_gfr_cases)
  qed (use assms in simp)
  then show ?thesis by simp
qed

lemma eligibility_trace_steps:
  assumes "eligibility_trace fmt data bmi = Inr tr"
  shows "tr \<noteq> [] \<and> hd tr = (''eligible'', []) \<and>
     successively (\<lambda>s t. upward s t \<and> rule_step s t) tr \<and> consistent (last tr)"
proof -
  have init: "consistent (''eligible'', [])"
    by (simp add: consistent_def)
  from assms obtain tr1 where
    r1: "run_checks [check_cancer data, check_infection data, check_substance data] (''eligible'', []) = Inr tr1"
    by (auto simp: eligibility_trace_def then_do_def split: sum.splits)
  note p1 = phase1_trace [OF r1 init]
  show ?thesis
  proof (cases "fst (last tr1) \<noteq> ''ineligible''")
    case False
    with assms r1 have "tr = tr1"
      by (simp add: eligibility_trace_def)
    with p1 show ?thesis by simp
  next
    case True
    with assms r1 obtain tr2 where
      r2: "run_checks [check_heart_lung data, check_bmi fmt bmi, check_age data,
                       check_support data, check_gfr data] (last tr1) = Inr tr2"
      and tr: "tr = tr1 @ tl tr2"
      by (auto simp: eligibility_trace_def then_do_def split: sum.splits)
    from p1 have c1: "consistent (last tr1)" by simp
    note p2 = phase2_trace [OF r2 c1 True]
    from p2 obtain x xs where tr2: "tr2 = x # xs" and x: "x = last tr1"
      by (cases tr2) auto
    from p2 tr2 have sxs: "successively (\<lambda>s t. upward s t \<and> rule_step s t) (last tr1 # xs)"
      using x by simp
    have "successively (\<lambda>s t. upward s t \<and> rule_step s t) (tr1 @ xs)"
      using p1 sxs by (auto simp: successively_append_iff successively_Cons)
    moreover have "last (tr1 @ xs) = last tr2"
      using tr2 x p1 by (cases xs) auto
    ultimately show ?thesis
      using p1 p2 tr tr2 by auto
  qed
qed

lemma eligibility_trace_exists:
  assumes "determine_eligibility fmt data bmi = Inr v"
  shows "\<exists>tr. eligibility_trace fmt data bmi = Inr tr \<and> last tr = v"
  using assms by (cases "eligibility_trace fmt data bmi") (simp_all add: determine_eligibility_trace)

lemma transp_upward: "transp upward"
  by (auto simp: transp_def upward_def)

lemma phase2_messages_Nil:
  "phase2_messages fmt h bmi a ss d g = [] \<longleftrightarrow>
     \<not> (truthy h \<or> present_gt bmi 40 \<or> present_gt bmi 35 \<or> present_gt a 75 \<or>
        py_eq_str ss ''No / Unsure'' \<or> gfr_rule d g)"
  by (simp add: phase2_messages_def bmi_messages_def)

lemma filter_bmi_hard [simp]: "filter is_bmi_message (hard_stop_messages c i s) = []"
  by (simp add: hard_stop_messages_def is_bmi_message_simps)

lemma filter_bmi_conditional [simp]:
  "filter is_bmi_message (phase2_messages fmt h bmi a ss d g) = bmi_messages fmt bmi"
  by (simp add: phase2_messages_def bmi_messages_def is_bmi_message_simps)

lemma msg_gfr_distinct:
  "msg_gfr \<noteq> msg_heart_lung" "msg_gfr \<noteq> msg_age" "msg_gfr \<noteq> msg_support"
  "msg_gfr \<noteq> msg_bmi_over_40 t" "msg_gfr \<noteq> msg_bmi_over_35 t"
  by (simp_all add: msg_gfr_def msg_heart_lung_def msg_age_def msg_support_def
        msg_bmi_over_40_def msg_bmi_over_35_def bmi_prefix_def)

lemma msg_age_distinct:
  "msg_age \<noteq> msg_heart_lung" "msg_age \<noteq> msg_gfr" "msg_age \<noteq> msg_support"
  "msg_age \<noteq> msg_bmi_over_40 t" "msg_age \<noteq> msg_bmi_over_35 t"
  by (simp_all add: msg_gfr_def msg_heart_lung_def msg_age_def msg_support_def
        msg_bmi_over_40_def msg_bmi_over_35_def bmi_prefix_def)

lemma msg_gfr_in_conditional:
  "msg_gfr \<in> set (phase2_messages fmt h bmi a ss d g) \<longleftrightarrow> gfr_rule d g"
  by (simp add: phase2_messages_def bmi_messages_def msg_gfr_distinct)

lemma msg_age_in_conditional:
  "msg_age \<in> set (phase2_messages fmt h bmi a ss d g) \<longleftrightarrow> present_gt a 75"
  by (simp add: phase2_messages_def bmi_messages_def msg_age_distinct)

lemma last_conditional_gfr:
  "gfr_rule d g \<Longrightarrow> last (phase2_messages fmt h bmi a ss d g) = msg_gfr"
  by (simp add: phase2_messages_def)

lemma not_in_hard_stop_messages:
  "msg_age \<notin> set (hard_stop_messages c i s)" "msg_gfr \<notin> set (hard_stop_messages c i s)"
  by (simp_all add: hard_stop_messages_def msg_age_def msg_gfr_def msg_cancer_def
        msg_infection_def msg_substance_def)

lemma example_applicant_fields:
  "applicant example_applicant (PBool False) (PBool False) (PBool False) (PBool True) (PInt 80)
     (PStr ''No / Unsure'') (PStr ''No'') (PFloat 25)"
  by (simp add: applicant_def example_applicant_def)

subsection \<open>Accuracy and range of the floating-point operations\<close>






lemma powi_pos [simp]: "0 < (2::real) powi k"
  by (simp add: power_int_def)















subsection \<open>What the evaluator raises on other dicts\<close>

lemma missing_key_raises:
  "determine_eligibility fmt Map.empty bmi = Inl (KeyError ''active_cancer'')"
  by (simp add: determine_eligibility_def check_cancer_def)

lemma text_age_raises:
  "determine_eligibility fmt
     (compile_data (PStr ''80'') (PStr ''Yes'') PNone False False False False (PStr ''Yes''))
     PNone = Inl TypeError"
  by (simp add: determine_eligibility_def check_cancer_def check_infection_def
        check_substance_def check_heart_lung_def check_bmi_def check_age_def compile_data_def
        py_gt_def)

subsection \<open>Where the code follows the specification's rules\<close>

text \<open>
  Along the recorded run the severity of the status never decreases, from the first
  statement to the returned verdict.
\<close>

lemma status_never_moves_down:
  assumes "applicant data cancer infection substance heart_lung age support on_dialysis gfr"
    and "opt_number age" and "opt_number gfr" and "opt_number bmi"
  shows "\<exists>tr. eligibility_trace fmt data bmi = Inr tr \<and>
     determine_eligibility fmt data bmi = Inr (last tr) \<and>
     hd tr = (''eligible'', []) \<and>
     sorted_wrt upward tr"
proof -
  note eq = determine_eligibility_eq [OF assms, of fmt]
  from eligibility_trace_exists [OF eq] obtain tr where
    tr: "eligibility_trace fmt data bmi = Inr tr" and
    det: "determine_eligibility fmt data bmi = Inr (last tr)"
    using eq by auto
  from eligibility_trace_steps [OF tr]
  have "successively upward tr" and hd: "hd tr = (''eligible'', [])"
    by (auto elim: successively_mono)
  then have "sorted_wrt upward tr"
    by (simp add: successively_conv_sorted_wrt [OF transp_upward])
  with tr det hd show ?thesis by blast
qed

text \<open>
  When \<open>social_support\<close> is true the verdict is the one the specification's rules give:
  the status by severity, the messages in the order of rules 1 to 9.
\<close>

lemma verdict_as_specified_with_support:
  assumes "applicant data cancer infection substance heart_lung age (PBool True) on_dialysis gfr"
    and "opt_number age" and "opt_number gfr" and "opt_number bmi"
  shows "determine_eligibility fmt data bmi =
     Inr (if hard_stop cancer infection substance then ''ineligible''
          else if spec_conditional_rule_applies heart_lung bmi age (PBool True) on_dialysis gfr
          then ''conditional'' else ''eligible'',
          hard_stop_messages cancer infection substance @
          (if hard_stop cancer infection substance then []
           else spec_conditional_messages fmt heart_lung bmi age (PBool True) on_dialysis gfr))"
proof -
  have same: "phase2_messages fmt heart_lung bmi age (PBool True) on_dialysis gfr =
      spec_conditional_messages fmt heart_lung bmi age (PBool True) on_dialysis gfr"
    by (simp add: phase2_messages_def spec_conditional_messages_def)
  have nil: "spec_conditional_messages fmt heart_lung bmi age (PBool True) on_dialysis gfr = [] \<longleftrightarrow>
      \<not> spec_conditional_rule_applies heart_lung bmi age (PBool True) on_dialysis gfr"
    by (simp add: spec_conditional_messages_def spec_conditional_rule_applies_def bmi_messages_def)
  show ?thesis
    by (cases "hard_stop cancer infection substance")
       (simp_all add: determine_eligibility_eq [OF assms] same nil hard_stop_def
          hard_stop_messages_Nil)
qed

section \<open>The claims\<close>

text \<open>
  C1.  The claim: whenever no hard stop applies and \<open>social_support\<close> is the boolean
  \<open>False\<close>, the verdict is \<open>conditional\<close> and the support-system message is listed.  The
  code compares the field with the text \<open>"No / Unsure"\<close>, while \<open>main\<close> stores the
  boolean \<open>social_support == "Yes"\<close>; a boolean never equals a string, so the rule does
  not fire.  For the applicant of age 30 on dialysis, with no condition ticked, who answers
  "No / Unsure", the verdict is \<open>eligible\<close> with no message.
\<close>

theorem no_support_person_yields_eligible:
  "determine_eligibility fmt
     (compile_data (PInt 30) (PStr ''Yes'') PNone False False False False (PStr ''No / Unsure''))
     PNone = Inr (''eligible'', [])"
  by (simp add: determine_eligibility_eq [OF compile_data_applicant] hard_stop_def
        phase2_messages_def bmi_messages_def present_gt_def gfr_rule_def)

text \<open>
  C2.  If at least one of \<open>active_cancer\<close>, \<open>active_infection\<close>, \<open>substance_abuse\<close> is
  true, the verdict is \<open>ineligible\<close> and the messages are exactly the hard-stop messages
  of the true flags, in the order cancer, infection, substance abuse, whatever the other
  fields and the BMI are.
\<close>

theorem hard_stop_verdict:
  assumes "data ''active_cancer'' = Some cancer" "data ''active_infection'' = Some infection"
    "data ''substance_abuse'' = Some substance"
    "truthy cancer \<or> truthy infection \<or> truthy substance"
  shows "determine_eligibility fmt data bmi = Inr (''ineligible'', hard_stop_messages cancer infection substance)"
  using determine_eligibility_hard [OF assms(1-3)] assms(4)
  by (simp add: hard_stop_messages_Nil)

theorem hard_stop_verdict_witness:
  "determine_eligibility (\<lambda>v. ''42.0'')
     (compile_data (PInt 80) (PStr ''No'') (PFloat 25) True False True True (PStr ''No / Unsure''))
     (PFloat 42) = Inr (''ineligible'', [msg_cancer, msg_substance])"
  using hard_stop_verdict [of "compile_data (PInt 80) (PStr ''No'') (PFloat 25) True False True True (PStr ''No / Unsure'')"
     "PBool True" "PBool False" "PBool True" "\<lambda>v. ''42.0''" "PFloat 42"]
  by (simp add: compile_data_def hard_stop_messages_def)



text \<open>
  C4.  With no hard stop, the GFR message is listed if and only if \<open>on_dialysis\<close> is
  \<open>"No"\<close> and the GFR is present and above 20; when it is listed the status is
  \<open>conditional\<close> and the message is the last one.  When it is not listed, the applicant
  is not off dialysis, or the GFR is absent, or it is at most 20.
\<close>

theorem gfr_rule_fires_iff:
  assumes "applicant data cancer infection substance heart_lung age support on_dialysis gfr"
    and "\<not> hard_stop cancer infection substance"
    and "opt_number age" and "opt_number gfr" and "opt_number bmi"
  shows "\<exists>status msgs. determine_eligibility fmt data bmi = Inr (status, msgs) \<and>
     (msg_gfr \<in> set msgs \<longleftrightarrow>
        on_dialysis = PStr ''No'' \<and> (\<exists>x. py_num gfr = Some x \<and> 20 < x)) \<and>
     (if msg_gfr \<in> set msgs then status = ''conditional'' \<and> last msgs = msg_gfr
      else on_dialysis \<noteq> PStr ''No'' \<or> gfr = PNone \<or> (\<exists>x. py_num gfr = Some x \<and> x \<le> 20))"
proof -
  have rule: "gfr_rule on_dialysis gfr \<longleftrightarrow>
      on_dialysis = PStr ''No'' \<and> (\<exists>x. py_num gfr = Some x \<and> 20 < x)"
    by (cases on_dialysis; cases gfr) (auto simp: gfr_rule_def present_gt_def)
  have skip: "on_dialysis \<noteq> PStr ''No'' \<or> gfr = PNone \<or> (\<exists>x. py_num gfr = Some x \<and> x \<le> 20)"
    if "\<not> gfr_rule on_dialysis gfr"
    using that assms(4) by (cases on_dialysis; cases gfr) (auto simp: gfr_rule_def present_gt_def)
  show ?thesis
    using assms(2) rule skip
    by (auto simp: determine_eligibility_eq [OF assms(1,3,4,5)] msg_gfr_in_conditional
          last_conditional_gfr phase2_messages_Nil)
qed

theorem gfr_rule_fires_iff_witness:
  "(\<exists>status msgs.
      determine_eligibility (\<lambda>v. [])
        (compile_data (PInt 30) (PStr ''No'') (PFloat 25) False False False False (PStr ''Yes''))
        PNone = Inr (status, msgs) \<and> msg_gfr \<in> set msgs \<and> status = ''conditional'') \<and>
   (\<exists>status msgs.
      determine_eligibility (\<lambda>v. [])
        (compile_data (PInt 30) (PStr ''No'') (PFloat 20) False False False False (PStr ''Yes''))
        PNone = Inr (status, msgs) \<and> msg_gfr \<notin> set msgs) \<and>
   (\<exists>status msgs.
      determine_eligibility (\<lambda>v. [])
        (compile_data (PInt 30) (PStr ''Yes'') (PFloat 25) False False False False (PStr ''Yes''))
        PNone = Inr (status, msgs) \<and> msg_gfr \<notin> set msgs)"
proof -
  have no: "\<not> hard_stop (PBool False) (PBool False) (PBool False)"
    by (simp add: hard_stop_def)
  have a: "applicant (compile_data (PInt 30) d g False False False False (PStr ''Yes''))
      (PBool False) (PBool False) (PBool False) (PBool False) (PInt 30) (PBool True) d g" for d g
    by (simp add: applicant_def compile_data_def)
  have "\<exists>status msgs.
      determine_eligibility (\<lambda>v. [])
        (compile_data (PInt 30) (PStr ''No'') (PFloat 25) False False False False (PStr ''Yes''))
        PNone = Inr (status, msgs) \<and> msg_gfr \<in> set msgs \<and> status = ''conditional''"
    using gfr_rule_fires_iff [OF a no, of "PFloat 25" PNone "\<lambda>v. []" "PStr ''No''"]
    by auto
  moreover have "\<exists>status msgs.
      determine_eligibility (\<lambda>v. [])
        (compile_data (PInt 30) (PStr ''No'') (PFloat 20) False False False False (PStr ''Yes''))
        PNone = Inr (status, msgs) \<and> msg_gfr \<notin> set msgs"
    using gfr_rule_fires_iff [OF a no, of "PFloat 20" PNone "\<lambda>v. []" "PStr ''No''"]
    by auto
  moreover have "\<exists>status msgs.
      determine_eligibility (\<lambda>v. [])
        (compile_data (PInt 30) (PStr ''Yes'') (PFloat 25) False False False False (PStr ''Yes''))
        PNone = Inr (status, msgs) \<and> msg_gfr \<notin> set msgs"
    using gfr_rule_fires_iff [OF a no, of "PFloat 25" PNone "\<lambda>v. []" "PStr ''Yes''"]
    by auto
  ultimately show ?thesis by blast
qed

text \<open>
  C6.  The claim: the status starts at \<open>eligible\<close> and only moves up in severity, so with
  no hard stop the final status is \<open>eligible\<close> exactly when none of the rules 4 to 9
  applies and \<open>conditional\<close> when one does.  The first half holds (lemma
  \<open>status_never_moves_down\<close>), and so does the second for a record whose \<open>social_support\<close>
  is true (lemma \<open>verdict_as_specified_with_support\<close>).  For the applicant of age 30 on
  dialysis, with no condition ticked, who has no support person, rule 8 applies and no
  hard stop does, yet the final status is \<open>eligible\<close>: the support statement compares the
  boolean with a text.
\<close>

theorem missing_support_status_stays_eligible:
  "applicant
     (compile_data (PInt 30) (PStr ''Yes'') PNone False False False False (PStr ''No / Unsure''))
     (PBool False) (PBool False) (PBool False) (PBool False) (PInt 30) (PBool False)
     (PStr ''Yes'') PNone \<and>
   \<not> hard_stop (PBool False) (PBool False) (PBool False) \<and>
   spec_conditional_rule_applies (PBool False) PNone (PInt 30) (PBool False) (PStr ''Yes'') PNone \<and>
   determine_eligibility fmt
     (compile_data (PInt 30) (PStr ''Yes'') PNone False False False False (PStr ''No / Unsure''))
     PNone = Inr (''eligible'', [])"
proof -
  have "applicant
     (compile_data (PInt 30) (PStr ''Yes'') PNone False False False False (PStr ''No / Unsure''))
     (PBool False) (PBool False) (PBool False) (PBool False) (PInt 30) (PBool False)
     (PStr ''Yes'') PNone"
    by (simp add: applicant_def compile_data_def)
  moreover have "\<not> hard_stop (PBool False) (PBool False) (PBool False)"
    by (simp add: hard_stop_def)
  moreover have "spec_conditional_rule_applies (PBool False) PNone (PInt 30) (PBool False)
     (PStr ''Yes'') PNone"
    by (simp add: spec_conditional_rule_applies_def)
  moreover have "determine_eligibility fmt
     (compile_data (PInt 30) (PStr ''Yes'') PNone False False False False (PStr ''No / Unsure''))
     PNone = Inr (''eligible'', [])"
    by (simp add: determine_eligibility_eq [OF compile_data_applicant] hard_stop_def
          phase2_messages_def bmi_messages_def present_gt_def gfr_rule_def)
  ultimately show ?thesis by (intro conjI)
qed

text \<open>
  C7.  The claim: the messages are those of the rules that apply, in the order of rules 1
  to 9, every applicable rule of a phase appending its message.  This holds for a record
  whose \<open>social_support\<close> is true (lemma \<open>verdict_as_specified_with_support\<close>).  For the
  applicant above the specification's rules list the support-system message, and the code
  returns no message.
\<close>

theorem missing_support_message_not_listed:
  "applicant
     (compile_data (PInt 30) (PStr ''Yes'') PNone False False False False (PStr ''No / Unsure''))
     (PBool False) (PBool False) (PBool False) (PBool False) (PInt 30) (PBool False)
     (PStr ''Yes'') PNone \<and>
   hard_stop_messages (PBool False) (PBool False) (PBool False) = [] \<and>
   spec_conditional_messages fmt (PBool False) PNone (PInt 30) (PBool False) (PStr ''Yes'') PNone
     = [msg_support] \<and>
   determine_eligibility fmt
     (compile_data (PInt 30) (PStr ''Yes'') PNone False False False False (PStr ''No / Unsure''))
     PNone = Inr (''eligible'', [])"
proof -
  have "applicant
     (compile_data (PInt 30) (PStr ''Yes'') PNone False False False False (PStr ''No / Unsure''))
     (PBool False) (PBool False) (PBool False) (PBool False) (PInt 30) (PBool False)
     (PStr ''Yes'') PNone"
    by (simp add: applicant_def compile_data_def)
  moreover have "hard_stop_messages (PBool False) (PBool False) (PBool False) = []"
    by (simp add: hard_stop_messages_def)
  moreover have "spec_conditional_messages fmt (PBool False) PNone (PInt 30) (PBool False)
     (PStr ''Yes'') PNone = [msg_support]"
    by (simp add: spec_conditional_messages_def bmi_messages_def present_gt_def gfr_rule_def)
  moreover have "determine_eligibility fmt
     (compile_data (PInt 30) (PStr ''Yes'') PNone False False False False (PStr ''No / Unsure''))
     PNone = Inr (''eligible'', [])"
    by (simp add: determine_eligibility_eq [OF compile_data_applicant] hard_stop_def
          phase2_messages_def bmi_messages_def present_gt_def gfr_rule_def)
  ultimately show ?thesis by (intro conjI)
qed

text \<open>
  C8.  For a dict that holds the eight fields, with \<open>age\<close>, \<open>gfr\<close> and the BMI each either
  \<open>None\<close> or a number, the evaluator raises nothing: it returns one of the three
  statuses with a list of messages, and a field that is \<open>None\<close> contributes no message.
\<close>

theorem never_raises:
  assumes "applicant data cancer infection substance heart_lung age support on_dialysis gfr"
    and "opt_number age" and "opt_number gfr" and "opt_number bmi"
  shows "\<exists>status msgs. determine_eligibility fmt data bmi = Inr (status, msgs) \<and>
     (status = ''eligible'' \<or> status = ''conditional'' \<or> status = ''ineligible'') \<and>
     (age \<noteq> PNone \<or> msg_age \<notin> set msgs) \<and>
     (gfr \<noteq> PNone \<or> msg_gfr \<notin> set msgs) \<and>
     (bmi \<noteq> PNone \<or> filter is_bmi_message msgs = [])"
proof -
  have "age = PNone \<Longrightarrow> \<not> present_gt age 75" "gfr = PNone \<Longrightarrow> \<not> gfr_rule on_dialysis gfr"
    "bmi = PNone \<Longrightarrow> bmi_messages fmt bmi = []"
    by (simp_all add: present_gt_def gfr_rule_def bmi_messages_def)
  then show ?thesis
    by (cases "hard_stop cancer infection substance")
       (auto simp: determine_eligibility_eq [OF assms] not_in_hard_stop_messages
          msg_age_in_conditional msg_gfr_in_conditional)
qed

theorem never_raises_witness:
  "\<exists>status msgs.
     determine_eligibility (\<lambda>v. [])
       (compile_data PNone (PStr ''No'') PNone False False False False (PStr ''Yes''))
       PNone = Inr (status, msgs) \<and>
     (status = ''eligible'' \<or> status = ''conditional'' \<or> status = ''ineligible'') \<and>
     msg_age \<notin> set msgs \<and> msg_gfr \<notin> set msgs \<and> filter is_bmi_message msgs = []"
proof -
  have a: "applicant (compile_data PNone (PStr ''No'') PNone False False False False (PStr ''Yes''))
      (PBool False) (PBool False) (PBool False) (PBool False) PNone (PBool True) (PStr ''No'') PNone"
    by (simp add: applicant_def compile_data_def)
  show ?thesis
    using never_raises [OF a, of PNone "\<lambda>v. []"] by simp
qed

text \<open>
  C10.  Every statement either changes nothing or appends exactly one message and leaves
  a status other than \<open>eligible\<close>; so the returned status is \<open>eligible\<close> if and only if
  the returned list of messages is empty, and the list is non-empty exactly when the status
  is \<open>conditional\<close> or \<open>ineligible\<close>.
\<close>

theorem eligible_iff_no_messages:
  assumes "applicant data cancer infection substance heart_lung age support on_dialysis gfr"
    and "opt_number age" and "opt_number gfr" and "opt_number bmi"
  shows "\<exists>tr status msgs. eligibility_trace fmt data bmi = Inr tr \<and>
     successively rule_step tr \<and>
     hd tr = (''eligible'', []) \<and> last tr = (status, msgs) \<and>
     determine_eligibility fmt data bmi = Inr (status, msgs) \<and>
     (status = ''eligible'' \<longleftrightarrow> msgs = []) \<and>
     (msgs \<noteq> [] \<longleftrightarrow> status = ''conditional'' \<or> status = ''ineligible'')"
proof -
  note eq = determine_eligibility_eq [OF assms, of fmt]
  from eligibility_trace_exists [OF eq] obtain tr where
    tr: "eligibility_trace fmt data bmi = Inr tr" and
    det: "determine_eligibility fmt data bmi = Inr (last tr)"
    using eq by auto
  from eligibility_trace_steps [OF tr]
  have "successively rule_step tr" and "hd tr = (''eligible'', [])" and "consistent (last tr)"
    by (auto elim: successively_mono)
  with tr det show ?thesis
    by (cases "last tr") (auto simp: consistent_def)
qed

theorem eligible_iff_no_messages_witness:
  "\<exists>tr status msgs. eligibility_trace (\<lambda>v. ''42.0'') example_applicant (PFloat 42) = Inr tr \<and>
     successively rule_step tr \<and>
     hd tr = (''eligible'', []) \<and> last tr = (status, msgs) \<and>
     determine_eligibility (\<lambda>v. ''42.0'') example_applicant (PFloat 42) = Inr (status, msgs) \<and>
     (status = ''eligible'' \<longleftrightarrow> msgs = []) \<and>
     (msgs \<noteq> [] \<longleftrightarrow> status = ''conditional'' \<or> status = ''ineligible'')"
  using eligible_iff_no_messages [OF example_applicant_fields, of "PFloat 42" "\<lambda>v. ''42.0''"]
  by simp


text \<open>
  A weight of \<open>10 ^ 310\<close> passes the division, and the product with 703 is an infinity,
  which \<open>round\<close> returns as it is.
\<close>

lemma huge_weight_gives_inf:
  "current_bmi (Some 5) (Some 0) (Some (10 ^ 310)) = Inr (PInf True)"
  by code_simp



text \<open>
  C9.  The claim: for 5 ft 10 in and 160 lb the BMI is about 22.9, and the applicant of age
  30, not on dialysis with a GFR of 15, no condition and a support person, is eligible with
  no message.  The quotient is 22.955..., which \<open>round\<close> takes to 23.0: no value within
  half a tenth of 22.9 is returned.
\<close>

theorem example_bmi_counterexample:
  "\<not> (\<exists>x. current_bmi (Some 5) (Some 10) (Some 160) = Inr (PFloat x) \<and> \<bar>x - 229 / 10\<bar> < 1 / 20)"
proof -
  have "current_bmi (Some 5) (Some 10) (Some 160) = Inr (PFloat 23)"
    by code_simp
  then show ?thesis by simp
qed

text \<open>
  C9, amended.  For that input the BMI is 23.0, and the verdict on the record with that
  BMI is \<open>eligible\<close> with no message.
\<close>

theorem example_end_to_end:
  "current_bmi (Some 5) (Some 10) (Some 160) = Inr (PFloat 23) \<and>
   determine_eligibility fmt
     (compile_data (PInt 30) (PStr ''No'') (PFloat 15) False False False False (PStr ''Yes''))
     (PFloat 23) = Inr (''eligible'', []) \<and>
   check_eligibility fmt (PInt 30) (PStr ''No'') (PFloat 15) (Some 5) (Some 10) (Some 160)
     False False False False (PStr ''Yes'') = Inr (''eligible'', [])"
proof -
  have bmi: "current_bmi (Some 5) (Some 10) (Some 160) = Inr (PFloat 23)"
    by code_simp
  have verdict: "determine_eligibility fmt
     (compile_data (PInt 30) (PStr ''No'') (PFloat 15) False False False False (PStr ''Yes''))
     (PFloat 23) = Inr (''eligible'', [])"
    by (simp add: determine_eligibility_eq [OF compile_data_applicant] hard_stop_def
          phase2_messages_def bmi_messages_def present_gt_def gfr_rule_def)
  from bmi verdict show ?thesis
    by (simp add: check_eligibility_def)
qed

end
